theory Spec2Isabelle
  imports Complex_Main
begin

section \<open>Python values and exceptions\<close>

text \<open>
  The source is Python over numpy arrays of floats.  Floats are embedded as exact reals;
  Python's unbounded integers as \<open>int\<close>.  An exception is a value of type \<open>error\<close>,
  returned on the left of a sum.  \<open>FloatingPointError\<close> marks the places where numpy
  would continue with \<open>inf\<close> or \<open>nan\<close> (a division by zero): the reals have no such
  values, so the model stops there instead of inventing one.
\<close>

datatype error = ValueError | IndexError | FloatingPointError

definition ebind :: "error + 'a \<Rightarrow> ('a \<Rightarrow> error + 'b) \<Rightarrow> error + 'b" where
  "ebind m f = (case m of Inl e \<Rightarrow> Inl e | Inr x \<Rightarrow> f x)"

text \<open>\<^verbatim>\<open>names.index(x)\<close>: the first position of \<open>x\<close>, or ValueError.\<close>

fun list_index :: "'a list \<Rightarrow> 'a \<Rightarrow> error + nat" where
  "list_index [] x = Inl ValueError"
| "list_index (y # ys) x =
     (if y = x then Inr 0
      else (case list_index ys x of Inl e \<Rightarrow> Inl e | Inr i \<Rightarrow> Inr (Suc i)))"

section \<open>The variable index map (class Variables)\<close>

record variables =
  nvar :: int
  idens :: int
  ixmom :: int
  iymom :: int
  iener :: int
  ixmag :: int
  iymag :: int
  naux :: int
  irhox :: int
  nq :: int
  irho :: int
  iu :: int
  iv :: int
  ip :: int
  ibx :: int
  iby :: int
  ix :: int

text \<open>The six names every conserved-state container registers.\<close>

definition mandatory :: "string list" where
  "mandatory = [''density'', ''x-momentum'', ''y-momentum'', ''energy'',
                ''x-magnetic-field'', ''y-magnetic-field'']"

text \<open>\<^verbatim>\<open>Variables.__init__(self, ccd)\<close>, as a function of \<^verbatim>\<open>ccd.names\<close>.\<close>

definition Variables :: "string list \<Rightarrow> error + variables" where
  "Variables names =
     ebind (list_index names ''density'') (\<lambda>d.
     ebind (list_index names ''x-momentum'') (\<lambda>xm.
     ebind (list_index names ''y-momentum'') (\<lambda>ym.
     ebind (list_index names ''energy'') (\<lambda>en.
     ebind (list_index names ''x-magnetic-field'') (\<lambda>bx.
     ebind (list_index names ''y-magnetic-field'') (\<lambda>by.
       let nv = int (length names);
           na = nv - 6
       in Inr \<lparr> nvar = nv,
                idens = int d, ixmom = int xm, iymom = int ym, iener = int en,
                ixmag = int bx, iymag = int by,
                naux = na,
                irhox = (if na > 0 then 6 else - 1),
                nq = 6 + na,
                irho = 0, iu = 1, iv = 2, ip = 3, ibx = 4, iby = 5,
                ix = (if na > 0 then 6 else - 1) \<rparr>))))))"

section \<open>numpy arrays\<close>

text \<open>
  An array is its shape and its entries.  \<open>arr3\<close> is the state array \<^verbatim>\<open>A[i, j, k]\<close>:
  cell \<open>(i, j)\<close> of the grid (ghost cells included), component \<open>k\<close>.  \<open>arr2\<close> is one
  field over the grid, such as the slice \<^verbatim>\<open>A[:, :, k]\<close>.  Entries outside the shape
  are never read by the operations below.
\<close>

record arr2 =
  rows :: nat
  cols :: nat
  at2 :: "nat \<Rightarrow> nat \<Rightarrow> real"

record arr3 =
  dim0 :: nat
  dim1 :: nat
  dim2 :: nat
  at3 :: "nat \<Rightarrow> nat \<Rightarrow> nat \<Rightarrow> real"

text \<open>
  An index \<open>k\<close> into an axis of length \<open>n\<close>: valid from \<open>-n\<close> to \<open>n - 1\<close>, negative
  ones counting from the end; IndexError otherwise.
\<close>

definition idx_ok :: "int \<Rightarrow> nat \<Rightarrow> bool" where
  "idx_ok k n \<longleftrightarrow> - int n \<le> k \<and> k < int n"

definition pyidx :: "int \<Rightarrow> nat \<Rightarrow> nat" where
  "pyidx k n = (if k < 0 then nat (int n + k) else nat k)"

text \<open>Reading \<^verbatim>\<open>A[:, :, k]\<close>.\<close>

definition get_comp :: "arr3 \<Rightarrow> int \<Rightarrow> error + arr2" where
  "get_comp A k =
     (if idx_ok k (dim2 A)
      then Inr \<lparr> rows = dim0 A, cols = dim1 A,
                 at2 = (\<lambda>i j. at3 A i j (pyidx k (dim2 A))) \<rparr>
      else Inl IndexError)"

text \<open>
  Writing \<^verbatim>\<open>A[:, :, k] = F\<close>.  The field must have the shape of the grid axes of \<open>A\<close>;
  every array of one grid has, and numpy's broadcasting of unit axes is not modelled:
  a field of another shape is a ValueError.
\<close>

definition set_comp :: "arr3 \<Rightarrow> int \<Rightarrow> arr2 \<Rightarrow> error + arr3" where
  "set_comp A k F =
     (if \<not> idx_ok k (dim2 A) then Inl IndexError
      else if rows F \<noteq> dim0 A \<or> cols F \<noteq> dim1 A then Inl ValueError
      else Inr (A\<lparr> at3 := (\<lambda>i j m. if m = pyidx k (dim2 A) then at2 F i j
                                     else at3 A i j m) \<rparr>))"

text \<open>The entries of a field, row by row.\<close>

definition elems :: "arr2 \<Rightarrow> real list" where
  "elems F = concat (map (\<lambda>i. map (at2 F i) [0..<cols F]) [0..<rows F])"


definition arr2_of :: "real list list \<Rightarrow> arr2" where
  "arr2_of xs =
     \<lparr> rows = length xs,
       cols = (case xs of [] \<Rightarrow> 0 | r # _ \<Rightarrow> length r),
       at2 = (\<lambda>i j. xs ! i ! j) \<rparr>"

text \<open>The entries of an array inside its shape, as nested lists.\<close>

definition cells :: "arr3 \<Rightarrow> real list list list" where
  "cells A = map (\<lambda>i. map (\<lambda>j. map (at3 A i j) [0..<dim2 A]) [0..<dim1 A]) [0..<dim0 A]"

section \<open>Array expressions and statements\<close>

text \<open>
  The two conversion functions work on two arrays, named \<^verbatim>\<open>U\<close> and \<^verbatim>\<open>q\<close> in the source:
  the caller's argument and a scratch array the function allocates.  A store gives each
  name its array; an expression reads the current state (the store, for the
  conversions), a statement updates the store.  A statement
  returns the exception it raised, if any, with the store as it was at that moment: what
  was written before an exception stays written.
\<close>

datatype var = Var_U | Var_q

type_synonym store = "var \<Rightarrow> arr3"
type_synonym 's expr = "'s \<Rightarrow> error + arr2"
type_synonym stmt = "store \<Rightarrow> error option \<times> store"

definition slice :: "var \<Rightarrow> int \<Rightarrow> store expr" where
  "slice v k s = get_comp (s v) k"

definition const_arr :: "arr2 \<Rightarrow> 's expr" where
  "const_arr F s = Inr F"

text \<open>An elementwise function of one array (\<^verbatim>\<open>np.maximum(A, c)\<close>, \<^verbatim>\<open>c * A\<close>, \<^verbatim>\<open>A**2\<close>).\<close>

definition emap :: "(real \<Rightarrow> real) \<Rightarrow> 's expr \<Rightarrow> 's expr" where
  "emap f a s = ebind (a s) (\<lambda>A. Inr (A\<lparr> at2 := (\<lambda>i j. f (at2 A i j)) \<rparr>))"

definition maximum :: "real \<Rightarrow> 's expr \<Rightarrow> 's expr" where
  "maximum c = emap (\<lambda>x. max x c)"

definition scale :: "real \<Rightarrow> 's expr \<Rightarrow> 's expr" where
  "scale c = emap (\<lambda>x. c * x)"

definition square :: "'s expr \<Rightarrow> 's expr" where
  "square = emap (\<lambda>x. x ^ 2)"

text \<open>An elementwise function of two arrays, the left operand evaluated first.\<close>

definition lift2 :: "(real \<Rightarrow> real \<Rightarrow> real) \<Rightarrow> 's expr \<Rightarrow> 's expr \<Rightarrow> 's expr" where
  "lift2 f a b s =
     ebind (a s) (\<lambda>A. ebind (b s) (\<lambda>B.
       if rows A = rows B \<and> cols A = cols B
       then Inr \<lparr> rows = rows A, cols = cols A,
                  at2 = (\<lambda>i j. f (at2 A i j) (at2 B i j)) \<rparr>
       else Inl ValueError))"

definition arr_add :: "'s expr \<Rightarrow> 's expr \<Rightarrow> 's expr" where
  "arr_add = lift2 (\<lambda>x y. x + y)"

definition arr_sub :: "'s expr \<Rightarrow> 's expr \<Rightarrow> 's expr" where
  "arr_sub = lift2 (\<lambda>x y. x - y)"

definition arr_mul :: "'s expr \<Rightarrow> 's expr \<Rightarrow> 's expr" where
  "arr_mul = lift2 (\<lambda>x y. x * y)"

text \<open>
  Elementwise division.  Where a divisor entry is zero numpy stores \<open>inf\<close> or \<open>nan\<close>
  and goes on; the model stops with FloatingPointError.
\<close>

definition arr_div :: "'s expr \<Rightarrow> 's expr \<Rightarrow> 's expr" where
  "arr_div a b s =
     ebind (a s) (\<lambda>A. ebind (b s) (\<lambda>B.
       if \<not> (rows A = rows B \<and> cols A = cols B) then Inl ValueError
       else if 0 \<in> set (elems B) then Inl FloatingPointError
       else Inr \<lparr> rows = rows A, cols = cols A,
                  at2 = (\<lambda>i j. at2 A i j / at2 B i j) \<rparr>))"

text \<open>\<^verbatim>\<open>c / A\<close> for a scalar \<open>c\<close>, with the same stop at a zero divisor.\<close>

definition scalar_div :: "real \<Rightarrow> 's expr \<Rightarrow> 's expr" where
  "scalar_div c b s =
     ebind (b s) (\<lambda>B.
       if 0 \<in> set (elems B) then Inl FloatingPointError
       else Inr (B\<lparr> at2 := (\<lambda>i j. c / at2 B i j) \<rparr>))"

text \<open>\<^verbatim>\<open>A.min()\<close>: the least entry; ValueError for an array with no entries.\<close>

definition amin :: "arr2 \<Rightarrow> error + real" where
  "amin F = (case elems F of [] \<Rightarrow> Inl ValueError | x # xs \<Rightarrow> Inr (fold min xs x))"

text \<open>\<^verbatim>\<open>v[:, :, k] = e\<close>: the right-hand side first, then the write.\<close>

definition assign :: "var \<Rightarrow> int \<Rightarrow> store expr \<Rightarrow> stmt" where
  "assign v k e s =
     (case e s of
        Inl err \<Rightarrow> (Some err, s)
      | Inr F \<Rightarrow>
          (case set_comp (s v) k F of
             Inl err \<Rightarrow> (Some err, s)
           | Inr A \<Rightarrow> (None, s(v := A))))"

text \<open>\<^verbatim>\<open>v = <new array>\<close>: binds the name to a freshly made array.\<close>

definition bind_var :: "var \<Rightarrow> error + arr3 \<Rightarrow> stmt" where
  "bind_var v r s = (case r of Inl err \<Rightarrow> (Some err, s) | Inr A \<Rightarrow> (None, s(v := A)))"

text \<open>\<^verbatim>\<open>x = e\<close> for a local field \<open>x\<close> used by the statements that follow.\<close>

definition bind_local :: "store expr \<Rightarrow> (arr2 \<Rightarrow> stmt) \<Rightarrow> stmt" where
  "bind_local e body s = (case e s of Inl err \<Rightarrow> (Some err, s) | Inr F \<Rightarrow> body F s)"

text \<open>Statements in sequence, up to the first exception.\<close>

fun run :: "stmt list \<Rightarrow> stmt" where
  "run [] s = (None, s)"
| "run (c # cs) s = (case c s of (Some err, s') \<Rightarrow> (Some err, s') | (None, s') \<Rightarrow> run cs s')"

text \<open>\<^verbatim>\<open>if b: ...\<close> with no else branch.\<close>

definition if_then :: "bool \<Rightarrow> stmt \<Rightarrow> stmt" where
  "if_then b c s = (if b then c s else (None, s))"

text \<open>\<^verbatim>\<open>for x in xs: body(x)\<close>.\<close>

definition for_each :: "'a list \<Rightarrow> ('a \<Rightarrow> stmt) \<Rightarrow> stmt" where
  "for_each xs body = run (map body xs)"

text \<open>\<^verbatim>\<open>range(a, b)\<close>.\<close>

definition py_range :: "int \<Rightarrow> int \<Rightarrow> int list" where
  "py_range a b = [a..b - 1]"

section \<open>Collaborators outside the source file\<close>

text \<open>
  Modelled from the spec: the grid (\<^verbatim>\<open>mesh.patch\<close>) is not part of the source.  The
  spec's interface section gives \<^verbatim>\<open>scratch_array(nvar)\<close> as an array sized
  \<open>[nx, ny, nvar]\<close> including ghost cells; \<open>qx\<close> and \<open>qy\<close> are those two sizes.  The
  fresh array is zero-filled here; the conversions overwrite every component of it
  for an index map made by \<open>Variables\<close>.  A negative component count is a ValueError.
\<close>

record grid =
  qx :: nat
  qy :: nat
  dx :: real
  dy :: real

definition scratch_array :: "grid \<Rightarrow> int \<Rightarrow> error + arr3" where
  "scratch_array g n =
     (if n < 0 then Inl ValueError
      else Inr \<lparr> dim0 = qx g, dim1 = qy g, dim2 = nat n, at3 = (\<lambda>i j k. 0) \<rparr>)"

text \<open>
  Modelled from the spec: the equation of state (\<^verbatim>\<open>mhd.eos\<close>) is not part of the
  source.  The spec gives \<^verbatim>\<open>pressure(gamma, rho, e)\<close> and
  \<^verbatim>\<open>internal_energy_density(gamma, p)\<close>, applied elementwise; they are parameters of the
  conversions.
\<close>

record eos =
  pres :: "real \<Rightarrow> real \<Rightarrow> real \<Rightarrow> real"
  rhoe :: "real \<Rightarrow> real \<Rightarrow> real"

section \<open>The state converter\<close>

definition smallrho :: real where
  "smallrho = 1 / 10 ^ 10"

definition smallp :: real where
  "smallp = 1 / 10 ^ 10"

text \<open>
  The store at entry binds the parameter; the other name is unbound until the function
  allocates it (an array of no entries stands for "unbound").  At exit the caller holds
  the returned array, or the exception, and its own argument as the call left it.
\<close>

definition unbound :: arr3 where
  "unbound = \<lparr> dim0 = 0, dim1 = 0, dim2 = 0, at3 = (\<lambda>i j k. 0) \<rparr>"

definition entry :: "var \<Rightarrow> arr3 \<Rightarrow> store" where
  "entry v A = (\<lambda>_. unbound)(v := A)"

definition returning :: "var \<Rightarrow> var \<Rightarrow> error option \<times> store \<Rightarrow> (error + arr3) \<times> arr3" where
  "returning res arg r =
     (case r of (None, s) \<Rightarrow> (Inr (s res), s arg) | (Some err, s) \<Rightarrow> (Inl err, s arg))"

text \<open>
  \<^verbatim>\<open>cons_to_prim(U, gamma, ivars, myg)\<close>.  The result pairs the returned \<open>q\<close> (or the
  exception) with the caller's \<open>U\<close> after the call.
\<close>

definition cons_to_prim ::
  "eos \<Rightarrow> arr3 \<Rightarrow> real \<Rightarrow> variables \<Rightarrow> grid \<Rightarrow> (error + arr3) \<times> arr3" where
  "cons_to_prim eq U gamma ivars myg =
     returning Var_q Var_U (run
       [ bind_var Var_q (scratch_array myg (nq ivars)),
         assign Var_U (idens ivars) (maximum smallrho (slice Var_U (idens ivars))),
         assign Var_q (irho ivars) (maximum smallrho (slice Var_U (idens ivars))),
         assign Var_q (iu ivars)
           (arr_div (slice Var_U (ixmom ivars)) (slice Var_q (irho ivars))),
         assign Var_q (iv ivars)
           (arr_div (slice Var_U (iymom ivars)) (slice Var_q (irho ivars))),
         assign Var_q (ibx ivars) (slice Var_U (ixmag ivars)),
         assign Var_q (iby ivars) (slice Var_U (iymag ivars)),
         bind_local
           (arr_div
             (arr_sub
               (arr_sub (slice Var_U (iener ivars))
                 (arr_mul (scale (1 / 2) (slice Var_q (irho ivars)))
                   (arr_add (square (slice Var_q (iu ivars)))
                            (square (slice Var_q (iv ivars))))))
               (scale (1 / 2)
                 (arr_add (square (slice Var_q (ibx ivars)))
                          (square (slice Var_q (iby ivars))))))
             (slice Var_q (irho ivars)))
           (\<lambda>e. assign Var_q (ip ivars)
                  (maximum smallp
                    (lift2 (pres eq gamma) (slice Var_q (irho ivars)) (const_arr e)))),
         if_then (naux ivars > 0)
           (for_each (zip (py_range (ix ivars) (ix ivars + naux ivars))
                          (py_range (irhox ivars) (irhox ivars + naux ivars)))
              (\<lambda>(nq, nu). assign Var_q nq
                             (arr_div (slice Var_U nu) (slice Var_q (irho ivars))))) ]
       (entry Var_U U))"

text \<open>
  \<^verbatim>\<open>prim_to_cons(q, gamma, ivars, myg)\<close>.  The result pairs the returned \<open>U\<close> (or the
  exception) with the caller's \<open>q\<close> after the call.
\<close>

definition prim_to_cons ::
  "eos \<Rightarrow> arr3 \<Rightarrow> real \<Rightarrow> variables \<Rightarrow> grid \<Rightarrow> (error + arr3) \<times> arr3" where
  "prim_to_cons eq q gamma ivars myg =
     returning Var_U Var_q (run
       [ bind_var Var_U (scratch_array myg (nvar ivars)),
         assign Var_U (idens ivars) (maximum smallrho (slice Var_q (irho ivars))),
         assign Var_U (ixmom ivars)
           (arr_mul (slice Var_q (iu ivars)) (slice Var_U (idens ivars))),
         assign Var_U (iymom ivars)
           (arr_mul (slice Var_q (iv ivars)) (slice Var_U (idens ivars))),
         assign Var_U (ixmag ivars) (slice Var_q (ibx ivars)),
         assign Var_U (iymag ivars) (slice Var_q (iby ivars)),
         bind_local (emap (rhoe eq gamma) (maximum smallp (slice Var_q (ip ivars))))
           (\<lambda>rhoe_l. assign Var_U (iener ivars)
              (arr_add
                (arr_add (const_arr rhoe_l)
                  (arr_mul (scale (1 / 2) (slice Var_q (irho ivars)))
                    (arr_add (square (slice Var_q (iu ivars)))
                             (square (slice Var_q (iv ivars))))))
                (scale (1 / 2)
                  (arr_add (square (slice Var_q (ibx ivars)))
                           (square (slice Var_q (iby ivars))))))),
         if_then (naux ivars > 0)
           (for_each (zip (py_range (ix ivars) (ix ivars + naux ivars))
                          (py_range (irhox ivars) (irhox ivars + naux ivars)))
              (\<lambda>(nq, nu). assign Var_U nu
                             (arr_mul (slice Var_q nq) (slice Var_q (irho ivars))))) ]
       (entry Var_q q))"

section \<open>The simulation driver\<close>

text \<open>
  \<^verbatim>\<open>Simulation.evolve\<close> orchestrates objects whose classes are not part of the source:
  the data containers, the Runge-Kutta integrator, the flux routine, the particles.
  They are parameters.  An object is a handle of type \<open>'h\<close> into a world of type \<open>'w\<close>
  that holds every such object's contents; a collaborator's method takes the handles it
  is called with and the world, and returns the new world (with the handles of what it
  returns).  The runtime parameters, the index map, the solid-boundary flags and the
  timer handed to the flux routine are fixed during a step and are part of the
  parameter \<open>timestep\<close>.
\<close>

record ('w, 'h) collab =
  RKIntegratorMHD :: "real \<Rightarrow> real \<Rightarrow> string \<Rightarrow> 'w \<Rightarrow> 'h \<times> 'w"
  set_start :: "'h \<Rightarrow> 'h \<times> 'h \<times> 'h \<Rightarrow> 'w \<Rightarrow> 'w"
  nstages :: "'h \<Rightarrow> 'w \<Rightarrow> nat"
  get_stage_start :: "'h \<Rightarrow> nat \<Rightarrow> 'w \<Rightarrow> ('h \<times> 'h \<times> 'h) \<times> 'w"
  fill_BC_all :: "'h \<Rightarrow> 'w \<Rightarrow> 'w"
  timestep :: "'h \<Rightarrow> 'h \<Rightarrow> 'h \<Rightarrow> real \<Rightarrow> 'w \<Rightarrow> ('h \<times> 'h \<times> 'h) \<times> 'w"
  store_increment :: "'h \<Rightarrow> nat \<Rightarrow> 'h \<Rightarrow> 'h \<Rightarrow> 'h \<Rightarrow> 'w \<Rightarrow> 'w"
  compute_final_update :: "'h \<Rightarrow> 'w \<Rightarrow> 'w"
  update_particles :: "'h \<Rightarrow> real \<Rightarrow> 'w \<Rightarrow> 'w"
  get_var_velocity :: "'h \<Rightarrow> 'w \<Rightarrow> arr2 \<times> arr2"
  get_var_magnetosonic :: "'h \<Rightarrow> 'w \<Rightarrow> arr2 \<times> arr2"
  grid_of :: "'h \<Rightarrow> 'w \<Rightarrow> grid"

text \<open>
  One entry per call of a collaborator, with its arguments and, last, the handles it
  returned.  The list of these entries is a record of what \<open>evolve\<close> did, in order.
\<close>

datatype 'h event =
    Ev_RKIntegratorMHD real real string 'h
  | Ev_set_start 'h 'h 'h 'h
  | Ev_get_stage_start 'h nat 'h 'h 'h
  | Ev_fill_BC_all 'h
  | Ev_timestep 'h 'h 'h real 'h 'h 'h
  | Ev_store_increment 'h nat 'h 'h 'h
  | Ev_compute_final_update 'h
  | Ev_update_particles 'h real

text \<open>
  The Simulation object.  \<open>cc_data_t\<close> is \<^verbatim>\<open>self.cc_data.t\<close>, kept apart from the
  world: the clock is written by \<open>evolve\<close> itself.  \<open>n_step\<close> is \<^verbatim>\<open>self.n\<close>, \<open>dt\<close>
  is \<^verbatim>\<open>self.dt\<close>; \<open>cfl\<close>, \<open>fix_dt\<close> and \<open>temporal_method\<close> are the runtime parameters
  \<^verbatim>\<open>driver.cfl\<close>, \<^verbatim>\<open>driver.fix_dt\<close> and \<^verbatim>\<open>mhd.temporal_method\<close>.  \<open>calls\<close> is the
  record of collaborator calls made so far.  The timer calls are left out.
\<close>

record ('w, 'h) simulation =
  world :: 'w
  cc_data :: 'h
  fcx_data :: 'h
  fcy_data :: 'h
  particles :: "'h option"
  cc_data_t :: real
  dt :: real
  n_step :: int
  cfl :: real
  fix_dt :: real
  temporal_method :: string
  calls :: "'h event list"

definition call ::
  "'h event \<Rightarrow> ('w \<Rightarrow> 'w) \<Rightarrow> ('w, 'h) simulation \<Rightarrow> ('w, 'h) simulation" where
  "call ev f sim = sim\<lparr> world := f (world sim), calls := calls sim @ [ev] \<rparr>"

text \<open>\<^verbatim>\<open>Simulation.method_compute_timestep\<close>: sets \<^verbatim>\<open>self.dt\<close>.\<close>

definition method_compute_timestep ::
  "('w, 'h) collab \<Rightarrow> ('w, 'h) simulation \<Rightarrow> error option \<times> ('w, 'h) simulation" where
  "method_compute_timestep C sim =
     (let u = (\<lambda>w. Inr (fst (get_var_velocity C (cc_data sim) w)));
          v = (\<lambda>w. Inr (snd (get_var_velocity C (cc_data sim) w)));
          Cfx = (\<lambda>w. Inr (fst (get_var_magnetosonic C (cc_data sim) w)));
          Cfy = (\<lambda>w. Inr (snd (get_var_magnetosonic C (cc_data sim) w)));
          g = grid_of C (cc_data sim) (world sim);
          xtmp = scalar_div (dx g) (arr_add (emap abs u) Cfx);
          ytmp = scalar_div (dy g) (arr_add (emap abs v) Cfy)
      in case ebind (xtmp (world sim)) (\<lambda>X.
              ebind (ytmp (world sim)) (\<lambda>Y.
              ebind (amin X) (\<lambda>xm.
              ebind (amin Y) (\<lambda>ym.
                Inr (cfl sim * min xm (min ym (fix_dt sim)))))))
         of Inl err \<Rightarrow> (Some err, sim)
          | Inr d \<Rightarrow> (None, sim\<lparr> dt := d \<rparr>))"

text \<open>\<^verbatim>\<open>Simulation.substep\<close>: the flux routine, with \<^verbatim>\<open>self.dt\<close>.\<close>

definition substep ::
  "('w, 'h) collab \<Rightarrow> ('w, 'h) simulation \<Rightarrow> 'h \<Rightarrow> 'h \<Rightarrow> 'h \<Rightarrow> ('h \<times> 'h \<times> 'h) \<times> 'w" where
  "substep C sim y fx fy = timestep C y fx fy (dt sim) (world sim)"

text \<open>The body of the loop over the stages in \<open>evolve\<close>, for stage \<open>s\<close>.\<close>

definition stage ::
  "('w, 'h) collab \<Rightarrow> 'h \<Rightarrow> nat \<Rightarrow> ('w, 'h) simulation \<Rightarrow> ('w, 'h) simulation" where
  "stage C rk s sim =
     (case get_stage_start C rk s (world sim) of ((ytmp, fxtmp, fytmp), w1) \<Rightarrow>
        let sim1 = sim\<lparr> world := w1,
                        calls := calls sim @ [Ev_get_stage_start rk s ytmp fxtmp fytmp] \<rparr>;
            sim2 = call (Ev_fill_BC_all ytmp) (fill_BC_all C ytmp) sim1;
            sim3 = call (Ev_fill_BC_all fxtmp) (fill_BC_all C fxtmp) sim2;
            sim4 = call (Ev_fill_BC_all fytmp) (fill_BC_all C fytmp) sim3
        in (case substep C sim4 ytmp fxtmp fytmp of ((k, kx, ky), w5) \<Rightarrow>
              let sim5 = sim4\<lparr> world := w5,
                               calls := calls sim4 @
                                 [Ev_timestep ytmp fxtmp fytmp (dt sim4) k kx ky] \<rparr>
              in call (Ev_store_increment rk s k kx ky) (store_increment C rk s k kx ky) sim5))"

text \<open>\<^verbatim>\<open>Simulation.evolve\<close>.\<close>

definition evolve ::
  "('w, 'h) collab \<Rightarrow> ('w, 'h) simulation \<Rightarrow> error option \<times> ('w, 'h) simulation" where
  "evolve C sim =
     (let myd = cc_data sim;
          method = temporal_method sim
      in case RKIntegratorMHD C (cc_data_t sim) (dt sim) method (world sim) of (rk, w1) \<Rightarrow>
        let sim1 = sim\<lparr> world := w1,
                        calls := calls sim @
                          [Ev_RKIntegratorMHD (cc_data_t sim) (dt sim) method rk] \<rparr>;
            sim2 = call (Ev_set_start rk myd (fcx_data sim1) (fcy_data sim1))
                     (set_start C rk (myd, fcx_data sim1, fcy_data sim1)) sim1;
            sim3 = fold (stage C rk) [0..<nstages C rk (world sim2)] sim2;
            sim4 = call (Ev_compute_final_update rk) (compute_final_update C rk) sim3;
            sim5 = (case particles sim4 of
                      None \<Rightarrow> sim4
                    | Some p \<Rightarrow> call (Ev_update_particles p (dt sim4))
                                 (update_particles C p (dt sim4)) sim4);
            sim6 = call (Ev_fill_BC_all (cc_data sim5)) (fill_BC_all C (cc_data sim5)) sim5;
            sim7 = call (Ev_fill_BC_all (fcx_data sim6)) (fill_BC_all C (fcx_data sim6)) sim6;
            sim8 = call (Ev_fill_BC_all (fcy_data sim7)) (fill_BC_all C (fcy_data sim7)) sim7
        in (case method_compute_timestep C sim8 of
              (Some err, sim9) \<Rightarrow> (Some err, sim9)
            | (None, sim9) \<Rightarrow>
                (None, sim9\<lparr> cc_data_t := cc_data_t sim9 + dt sim9,
                             n_step := n_step sim9 + 1 \<rparr>)))"

section \<open>Notions used to state the properties\<close>

text \<open>
  The calls one stage makes, for the integrator \<open>rk\<close>, the timestep \<open>d\<close>, the stage
  index \<open>s\<close>, the working states \<open>(y, fx, fy)\<close> the integrator returned for the stage and
  the increments \<open>(k, kx, ky)\<close> the flux routine returned: the stage's working states are
  fetched, each is ghost-filled, the substep is evaluated on them, and its increments
  are stored under the stage index.
\<close>

definition stage_calls ::
  "'h \<Rightarrow> real \<Rightarrow> nat \<Rightarrow> ('h \<times> 'h \<times> 'h) \<times> ('h \<times> 'h \<times> 'h) \<Rightarrow> 'h event list" where
  "stage_calls rk d s b =
     (case b of ((y, fx, fy), (k, kx, ky)) \<Rightarrow>
        [Ev_get_stage_start rk s y fx fy,
         Ev_fill_BC_all y, Ev_fill_BC_all fx, Ev_fill_BC_all fy,
         Ev_timestep y fx fy d k kx ky,
         Ev_store_increment rk s k kx ky])"


text \<open>
  The six mandatory names are the first six registered, in any order: the layout
  \<^verbatim>\<open>Simulation.initialize\<close> produces, and the one the spec's data model requires.
\<close>

definition leading_six :: "string list \<Rightarrow> bool" where
  "leading_six names \<longleftrightarrow> set (take 6 names) = set mandatory"

text \<open>
  Two simulations that differ at most in the world and in the record of calls: what a
  collaborator call may change.
\<close>

definition same_frame :: "('w, 'h) simulation \<Rightarrow> ('w, 'h) simulation \<Rightarrow> bool" where
  "same_frame a b \<longleftrightarrow>
     dt a = dt b \<and> cc_data a = cc_data b \<and> fcx_data a = fcx_data b
   \<and> fcy_data a = fcy_data b \<and> particles a = particles b \<and> cc_data_t a = cc_data_t b
   \<and> n_step a = n_step b \<and> cfl a = cfl b \<and> fix_dt a = fix_dt b
   \<and> temporal_method a = temporal_method b"

text \<open>
  The layout of an index map whose six conserved indices are the slots \<open>0..5\<close> in some
  order, with the primitive indices and the auxiliary indices as \<open>Variables\<close> sets them.
\<close>

definition standard_layout :: "variables \<Rightarrow> bool" where
  "standard_layout m \<longleftrightarrow>
     6 \<le> nvar m \<and> naux m = nvar m - 6 \<and> nq m = nvar m
   \<and> irho m = 0 \<and> iu m = 1 \<and> iv m = 2 \<and> ip m = 3 \<and> ibx m = 4 \<and> iby m = 5
   \<and> ix m = (if naux m > 0 then 6 else - 1)
   \<and> irhox m = (if naux m > 0 then 6 else - 1)
   \<and> distinct [idens m, ixmom m, iymom m, iener m, ixmag m, iymag m]
   \<and> list_all (\<lambda>k. 0 \<le> k \<and> k < 6) [idens m, ixmom m, iymom m, iener m, ixmag m, iymag m]"

text \<open>
  An expression evaluates, in state \<open>s\<close>, to the field of shape \<open>r \<times> c\<close> with entries
  \<open>f\<close>.
\<close>

definition evals :: "'s expr \<Rightarrow> 's \<Rightarrow> nat \<Rightarrow> nat \<Rightarrow> (nat \<Rightarrow> nat \<Rightarrow> real) \<Rightarrow> bool" where
  "evals e s r c f \<longleftrightarrow> e s = Inr \<lparr> rows = r, cols = c, at2 = f \<rparr>"



section \<open>Instances for the examples\<close>


text \<open>
  A world that is one number, the uniform speed of the flow along \<open>x\<close>, on a grid of a
  single cell of width \<open>1/5\<close> with fast magnetosonic speed \<open>1\<close>.  The integrator has two
  stages; the final update speeds the flow up by \<open>1\<close>.  Handles are numbers.
\<close>

definition example_collab :: "(real, nat) collab" where
  "example_collab =
     \<lparr> RKIntegratorMHD = (\<lambda>t0 d m w. (3, w)),
       set_start = (\<lambda>rk st w. w),
       nstages = (\<lambda>rk w. 2),
       get_stage_start = (\<lambda>rk s w. ((10 * s, 10 * s + 1, 10 * s + 2), w)),
       fill_BC_all = (\<lambda>h w. w),
       timestep = (\<lambda>y fx fy d w. ((y + 100, fx + 100, fy + 100), w)),
       store_increment = (\<lambda>rk s k kx ky w. w),
       compute_final_update = (\<lambda>rk w. w + 1),
       update_particles = (\<lambda>p d w. w),
       get_var_velocity = (\<lambda>h w. (arr2_of [[w]], arr2_of [[0]])),
       get_var_magnetosonic = (\<lambda>h w. (arr2_of [[1]], arr2_of [[1]])),
       grid_of = (\<lambda>h w. \<lparr> qx = 1, qy = 1, dx = 1 / 5, dy = 1 / 5 \<rparr>) \<rparr>"

text \<open>
  A simulation at rest at time \<open>0\<close>, about to take a step with \<open>dt = 1/10\<close>: the
  timestep \<open>method_compute_timestep\<close> gives for the state at rest.
\<close>

definition example_sim :: "(real, nat) simulation" where
  "example_sim =
     \<lparr> world = 0, cc_data = 0, fcx_data = 1, fcy_data = 2, particles = None,
       cc_data_t = 0, dt = 1 / 10, n_step = 0, cfl = 1 / 2, fix_dt = 1,
       temporal_method = ''RK2'', calls = [] \<rparr>"

text \<open>Index maps for six names and for seven.\<close>

definition vars6 :: variables where
  "vars6 = \<lparr> nvar = 6, idens = 0, ixmom = 1, iymom = 2, iener = 3, ixmag = 4, iymag = 5,
             naux = 0, irhox = - 1, nq = 6, irho = 0, iu = 1, iv = 2, ip = 3, ibx = 4,
             iby = 5, ix = - 1 \<rparr>"

definition vars7 :: variables where
  "vars7 = \<lparr> nvar = 7, idens = 0, ixmom = 1, iymom = 2, iener = 3, ixmag = 4, iymag = 5,
             naux = 1, irhox = 6, nq = 7, irho = 0, iu = 1, iv = 2, ip = 3, ibx = 4,
             iby = 5, ix = 6 \<rparr>"

text \<open>The names of a container with one passive scalar.\<close>

definition names7 :: "string list" where
  "names7 = mandatory @ [''fuel'']"





section \<open>Facts about the index map\<close>

lemma ebind_simps [simp]:
  "ebind (Inl e) f = Inl e"
  "ebind (Inr x) f = f x"
  by (simp_all add: ebind_def)

lemma ebind_eq_Inr:
  "ebind m f = Inr y \<longleftrightarrow> (\<exists>x. m = Inr x \<and> f x = Inr y)"
  by (cases m) simp_all

lemma list_index_Inr:
  "list_index xs x = Inr i \<Longrightarrow> i < length xs \<and> xs ! i = x \<and> (\<forall>j<i. xs ! j \<noteq> x)"
proof (induction xs arbitrary: i)
  case Nil
  then show ?case by simp
next
  case (Cons y ys)
  show ?case
  proof (cases "y = x")
    case True
    with Cons.prems show ?thesis by simp
  next
    case False
    with Cons.prems obtain k where k: "list_index ys x = Inr k" "i = Suc k"
      by (auto split: sum.splits)
    from Cons.IH [OF k(1)] False k(2) show ?thesis
      by (auto simp: nth_Cons split: nat.splits)
  qed
qed

lemma list_index_mem:
  "x \<in> set xs \<Longrightarrow> \<exists>i. list_index xs x = Inr i"
  by (induction xs) auto

lemma mandatory_distinct: "distinct mandatory \<and> length mandatory = 6"
  by (simp add: mandatory_def)

lemma mandatory_length_le:
  assumes "set mandatory \<subseteq> set names"
  shows "6 \<le> length names"
proof -
  have "card (set mandatory) \<le> card (set names)"
    using assms by (simp add: card_mono)
  moreover have "card (set mandatory) = 6"
    using mandatory_distinct distinct_card by fastforce
  moreover have "card (set names) \<le> length names"
    by (rule card_length)
  ultimately show ?thesis by linarith
qed

text \<open>
  Claim C6.  For a container that registers the six mandatory names, \<open>Variables\<close>
  returns an index map whose auxiliary count is the number of names minus six, and whose
  auxiliary indices \<open>irhox\<close> and \<open>ix\<close> are both the sentinel \<open>-1\<close> when there are exactly
  six names and both \<open>6\<close> when there are seven or more.
\<close>

theorem variables_aux_indices:
  assumes "set mandatory \<subseteq> set names"
  shows "\<exists>m. Variables names = Inr m
           \<and> nvar m = int (length names)
           \<and> naux m = nvar m - 6
           \<and> irhox m = (if length names = 6 then - 1 else 6)
           \<and> ix m = (if length names = 6 then - 1 else 6)
           \<and> (length names = 6 \<or> 7 \<le> length names)"
proof -
  from assms have mem:
    "''density'' \<in> set names" "''x-momentum'' \<in> set names" "''y-momentum'' \<in> set names"
    "''energy'' \<in> set names" "''x-magnetic-field'' \<in> set names"
    "''y-magnetic-field'' \<in> set names"
    by (auto simp: mandatory_def)
  from mem(1) obtain d where d: "list_index names ''density'' = Inr d"
    using list_index_mem by fastforce
  from mem(2) obtain xm where xm: "list_index names ''x-momentum'' = Inr xm"
    using list_index_mem by fastforce
  from mem(3) obtain ym where ym: "list_index names ''y-momentum'' = Inr ym"
    using list_index_mem by fastforce
  from mem(4) obtain en where en: "list_index names ''energy'' = Inr en"
    using list_index_mem by fastforce
  from mem(5) obtain bx where bx: "list_index names ''x-magnetic-field'' = Inr bx"
    using list_index_mem by fastforce
  from mem(6) obtain by' where by': "list_index names ''y-magnetic-field'' = Inr by'"
    using list_index_mem by fastforce
  have len: "6 \<le> length names"
    by (rule mandatory_length_le [OF assms])
  show ?thesis
    unfolding Variables_def d xm ym en bx by' ebind_simps Let_def
    using len by auto
qed

theorem variables_aux_indices_witness:
  "(\<exists>m. Variables mandatory = Inr m \<and> naux m = 0 \<and> irhox m = - 1 \<and> ix m = - 1)
   \<and> (\<exists>m. Variables (mandatory @ [''fuel'', ''ash'']) = Inr m
          \<and> naux m = 2 \<and> irhox m = 6 \<and> ix m = 6)"
proof -
  have a: "set mandatory \<subseteq> set mandatory" by simp
  have b: "set mandatory \<subseteq> set (mandatory @ [''fuel'', ''ash''])" by auto
  show ?thesis
    using variables_aux_indices [OF a] variables_aux_indices [OF b]
    by (auto simp: mandatory_def)
qed

section \<open>The timestep controller\<close>

lemma elems_set: "set (elems F) = {at2 F i j | i j. i < rows F \<and> j < cols F}"
  unfolding elems_def by auto blast

lemma elems_nonempty: "0 < rows F \<Longrightarrow> 0 < cols F \<Longrightarrow> elems F \<noteq> []"
proof -
  assume "0 < rows F" "0 < cols F"
  then have "at2 F 0 0 \<in> set (elems F)" unfolding elems_set by blast
  then show ?thesis by auto
qed

lemma amin_Inr:
  assumes "0 < rows F" "0 < cols F"
  shows "amin F = Inr (Min (set (elems F)))"
proof -
  from elems_nonempty [OF assms] obtain x xs where e: "elems F = x # xs"
    by (cases "elems F") auto
  have "fold min xs x = Min (set (x # xs))"
    by (rule Min.set_eq_fold [symmetric])
  then show ?thesis
    unfolding amin_def e by simp
qed

lemma elems_upd [simp]:
  "elems (F\<lparr> at2 := g \<rparr>) = concat (map (\<lambda>i. map (g i) [0..<cols F]) [0..<rows F])"
  by (simp add: elems_def)

lemma set_elems_map:
  "set (elems \<lparr> rows = r, cols = c, at2 = g \<rparr>) = {g i j | i j. i < r \<and> j < c}"
  unfolding elems_set by simp

lemma method_compute_timestep_value:
  assumes vel: "get_var_velocity C (cc_data sim) (world sim) = (u, v)"
    and mag: "get_var_magnetosonic C (cc_data sim) (world sim) = (Cfx, Cfy)"
    and shx: "rows Cfx = rows u" "cols Cfx = cols u" "0 < rows u" "0 < cols u"
    and shy: "rows Cfy = rows v" "cols Cfy = cols v" "0 < rows v" "0 < cols v"
    and nzx: "\<forall>i<rows u. \<forall>j<cols u. \<bar>at2 u i j\<bar> + at2 Cfx i j \<noteq> 0"
    and nzy: "\<forall>i<rows v. \<forall>j<cols v. \<bar>at2 v i j\<bar> + at2 Cfy i j \<noteq> 0"
  shows "method_compute_timestep C sim =
     (None, sim\<lparr> dt := cfl sim *
        min (Min {dx (grid_of C (cc_data sim) (world sim)) / (\<bar>at2 u i j\<bar> + at2 Cfx i j) | i j. i < rows u \<and> j < cols u})
         (min (Min {dy (grid_of C (cc_data sim) (world sim)) / (\<bar>at2 v i j\<bar> + at2 Cfy i j) | i j. i < rows v \<and> j < cols v})
              (fix_dt sim)) \<rparr>)"
proof -
  let ?g = "grid_of C (cc_data sim) (world sim)"
  let ?sx = "\<lparr> rows = rows u, cols = cols u, at2 = (\<lambda>i j. \<bar>at2 u i j\<bar> + at2 Cfx i j) \<rparr>"
  let ?sy = "\<lparr> rows = rows v, cols = cols v, at2 = (\<lambda>i j. \<bar>at2 v i j\<bar> + at2 Cfy i j) \<rparr>"
  let ?X = "?sx\<lparr> at2 := (\<lambda>i j. dx ?g / at2 ?sx i j) \<rparr>"
  let ?Y = "?sy\<lparr> at2 := (\<lambda>i j. dy ?g / at2 ?sy i j) \<rparr>"
  have sx: "arr_add (emap abs (\<lambda>w. Inr (fst (get_var_velocity C (cc_data sim) w))))
              (\<lambda>w. Inr (fst (get_var_magnetosonic C (cc_data sim) w))) (world sim) = Inr ?sx"
    using shx by (simp add: arr_add_def lift2_def emap_def vel mag)
  have sy: "arr_add (emap abs (\<lambda>w. Inr (snd (get_var_velocity C (cc_data sim) w))))
              (\<lambda>w. Inr (snd (get_var_magnetosonic C (cc_data sim) w))) (world sim) = Inr ?sy"
    using shy by (simp add: arr_add_def lift2_def emap_def vel mag)
  have zx: "0 \<notin> set (elems ?sx)"
    using nzx unfolding set_elems_map by auto
  have zy: "0 \<notin> set (elems ?sy)"
    using nzy unfolding set_elems_map by auto
  have X: "scalar_div (dx ?g) (arr_add (emap abs (\<lambda>w. Inr (fst (get_var_velocity C (cc_data sim) w))))
              (\<lambda>w. Inr (fst (get_var_magnetosonic C (cc_data sim) w)))) (world sim) = Inr ?X"
    unfolding scalar_div_def sx using zx by simp
  have Y: "scalar_div (dy ?g) (arr_add (emap abs (\<lambda>w. Inr (snd (get_var_velocity C (cc_data sim) w))))
              (\<lambda>w. Inr (snd (get_var_magnetosonic C (cc_data sim) w)))) (world sim) = Inr ?Y"
    unfolding scalar_div_def sy using zy by simp
  have mX: "amin ?X = Inr (Min {dx ?g / (\<bar>at2 u i j\<bar> + at2 Cfx i j) | i j. i < rows u \<and> j < cols u})"
    using amin_Inr [of ?X] shx by (simp add: set_elems_map)
  have mY: "amin ?Y = Inr (Min {dy ?g / (\<bar>at2 v i j\<bar> + at2 Cfy i j) | i j. i < rows v \<and> j < cols v})"
    using amin_Inr [of ?Y] shy by (simp add: set_elems_map)
  show ?thesis
    unfolding method_compute_timestep_def Let_def X Y ebind_simps mX mY by simp
qed


text \<open>
  Claim C3.  When the velocity and wave-speed fields have one non-empty shape per
  direction and no denominator \<open>|u| + Cfx\<close>, \<open>|v| + Cfy\<close> is zero,
  \<open>method_compute_timestep\<close> returns normally and sets \<open>dt\<close> to the CFL number times
  the least of: the minimum over all cells of \<open>dx / (|u| + Cfx)\<close>, the minimum over all
  cells of \<open>dy / (|v| + Cfy)\<close>, and \<open>fix_dt\<close>; nothing else of the simulation changes.
  In particular, with CFL number \<open>1/2\<close>, \<open>fix_dt = 1\<close> and a directional minimum of
  \<open>1/5\<close>, the new \<open>dt\<close> is \<open>1/10\<close>.
\<close>

theorem compute_timestep_formula:
  assumes vel: "get_var_velocity C (cc_data sim) (world sim) = (u, v)"
    and mag: "get_var_magnetosonic C (cc_data sim) (world sim) = (Cfx, Cfy)"
    and shx: "rows Cfx = rows u" "cols Cfx = cols u" "0 < rows u" "0 < cols u"
    and shy: "rows Cfy = rows v" "cols Cfy = cols v" "0 < rows v" "0 < cols v"
    and nzx: "\<forall>i<rows u. \<forall>j<cols u. \<bar>at2 u i j\<bar> + at2 Cfx i j \<noteq> 0"
    and nzy: "\<forall>i<rows v. \<forall>j<cols v. \<bar>at2 v i j\<bar> + at2 Cfy i j \<noteq> 0"
  shows "\<exists>g mx my.
           g = grid_of C (cc_data sim) (world sim)
         \<and> mx = Min {dx g / (\<bar>at2 u i j\<bar> + at2 Cfx i j) | i j. i < rows u \<and> j < cols u}
         \<and> my = Min {dy g / (\<bar>at2 v i j\<bar> + at2 Cfy i j) | i j. i < rows v \<and> j < cols v}
         \<and> method_compute_timestep C sim
             = (None, sim\<lparr> dt := cfl sim * min mx (min my (fix_dt sim)) \<rparr>)
         \<and> (cfl sim = 1 / 2 \<and> fix_dt sim = 1 \<and> min mx my = 1 / 5
              \<longrightarrow> dt (snd (method_compute_timestep C sim)) = 1 / 10)"
proof -
  define g where "g = grid_of C (cc_data sim) (world sim)"
  define mx where "mx = Min {dx g / (\<bar>at2 u i j\<bar> + at2 Cfx i j) | i j. i < rows u \<and> j < cols u}"
  define my where "my = Min {dy g / (\<bar>at2 v i j\<bar> + at2 Cfy i j) | i j. i < rows v \<and> j < cols v}"
  have m: "method_compute_timestep C sim
             = (None, sim\<lparr> dt := cfl sim * min mx (min my (fix_dt sim)) \<rparr>)"
    unfolding mx_def my_def g_def by (rule method_compute_timestep_value [OF assms])
  have sc: "cfl sim * min mx (min my (fix_dt sim)) = 1 / 10"
    if "cfl sim = 1 / 2" "fix_dt sim = 1" "min mx my = 1 / 5"
  proof -
    have "min mx (min my (fix_dt sim)) = min (min mx my) (fix_dt sim)"
      by (simp add: min.assoc)
    also have "\<dots> = 1 / 5" using that by simp
    finally have e: "min mx (min my (fix_dt sim)) = 1 / 5" .
    show ?thesis unfolding e that(1) by simp
  qed
  show ?thesis
    apply (rule exI [of _ g], rule exI [of _ mx], rule exI [of _ my])
    using m sc by (simp add: g_def mx_def my_def)
qed

theorem compute_timestep_formula_witness:
  "method_compute_timestep example_collab example_sim
     = (None, example_sim\<lparr> dt := 1 / 10 \<rparr>)
   \<and> cfl example_sim = 1 / 2 \<and> fix_dt example_sim = 1"
proof -
  have a: "get_var_velocity example_collab (cc_data example_sim) (world example_sim)
             = (arr2_of [[0]], arr2_of [[0]])"
    and b: "get_var_magnetosonic example_collab (cc_data example_sim) (world example_sim)
             = (arr2_of [[1]], arr2_of [[1]])"
    by (simp_all add: example_collab_def example_sim_def)
  have g: "grid_of example_collab (cc_data example_sim) (world example_sim)
             = \<lparr> qx = 1, qy = 1, dx = 1 / 5, dy = 1 / 5 \<rparr>"
    by (simp add: example_collab_def)
  have s: "{(1 / 5 :: real) / (\<bar>at2 (arr2_of [[0]]) i j\<bar> + at2 (arr2_of [[1]]) i j) | i j.
             i < rows (arr2_of [[0]]) \<and> j < cols (arr2_of [[0]])} = {1 / 5}"
    by (auto simp: arr2_of_def)
  have c: "cfl example_sim = 1 / 2" "fix_dt example_sim = 1"
    by (simp_all add: example_sim_def)
  from compute_timestep_formula [OF a b, unfolded g] c s
  show ?thesis
    by (simp add: arr2_of_def)
qed




section \<open>The stage driver\<close>

lemma call_fields [simp]:
  "world (call ev f sim) = f (world sim)"
  "calls (call ev f sim) = calls sim @ [ev]"
  "dt (call ev f sim) = dt sim"
  "cc_data (call ev f sim) = cc_data sim"
  "fcx_data (call ev f sim) = fcx_data sim"
  "fcy_data (call ev f sim) = fcy_data sim"
  "particles (call ev f sim) = particles sim"
  "cc_data_t (call ev f sim) = cc_data_t sim"
  "n_step (call ev f sim) = n_step sim"
  "cfl (call ev f sim) = cfl sim"
  "fix_dt (call ev f sim) = fix_dt sim"
  "temporal_method (call ev f sim) = temporal_method sim"
  by (simp_all add: call_def)

lemma stage_calls_of:
  "\<exists>b. calls (stage C rk s sim) = calls sim @ stage_calls rk (dt sim) s b
     \<and> same_frame (stage C rk s sim) sim"
proof -
  obtain y fx fy w1 where g: "get_stage_start C rk s (world sim) = ((y, fx, fy), w1)"
    by (metis prod_cases3 surj_pair)
  let ?w4 = "fill_BC_all C fy (fill_BC_all C fx (fill_BC_all C y w1))"
  obtain k kx ky w5 where t: "timestep C y fx fy (dt sim) ?w4 = ((k, kx, ky), w5)"
    by (metis prod_cases3 surj_pair)
  have "calls (stage C rk s sim) = calls sim @ stage_calls rk (dt sim) s ((y, fx, fy), (k, kx, ky))"
    by (simp add: stage_def g substep_def t Let_def stage_calls_def)
  moreover have "same_frame (stage C rk s sim) sim"
    by (simp add: stage_def g substep_def t Let_def same_frame_def)
  ultimately show ?thesis by blast
qed

lemma fold_stage_calls:
  "\<exists>bs. length bs = length ss
      \<and> calls (fold (stage C rk) ss sim)
          = calls sim @ concat (map2 (stage_calls rk (dt sim)) ss bs)
      \<and> same_frame (fold (stage C rk) ss sim) sim"
proof (induction ss arbitrary: sim)
  case Nil
  show ?case by (simp add: same_frame_def)
next
  case (Cons s ss)
  from stage_calls_of [of C rk s sim] obtain b where
    b: "calls (stage C rk s sim) = calls sim @ stage_calls rk (dt sim) s b"
    and f: "same_frame (stage C rk s sim) sim" by blast
  from Cons.IH [of "stage C rk s sim"] obtain bs where
    bs: "length bs = length ss"
    "calls (fold (stage C rk) ss (stage C rk s sim))
       = calls (stage C rk s sim) @ concat (map2 (stage_calls rk (dt (stage C rk s sim))) ss bs)"
    "same_frame (fold (stage C rk) ss (stage C rk s sim)) (stage C rk s sim)"
    by blast
  have d: "dt (stage C rk s sim) = dt sim" using f by (simp add: same_frame_def)
  have "length (b # bs) = length (s # ss)" using bs(1) by simp
  moreover have "calls (fold (stage C rk) (s # ss) sim)
       = calls sim @ concat (map2 (stage_calls rk (dt sim)) (s # ss) (b # bs))"
    using bs(2) b d by simp
  moreover have "same_frame (fold (stage C rk) (s # ss) sim) sim"
    using bs(3) f by (simp add: same_frame_def)
  ultimately show ?case by blast
qed

lemma method_compute_timestep_frame:
  "method_compute_timestep C sim = (r, sim') \<Longrightarrow>
     calls sim' = calls sim \<and> world sim' = world sim \<and> cc_data_t sim' = cc_data_t sim
   \<and> n_step sim' = n_step sim"
  by (auto simp: method_compute_timestep_def Let_def split: sum.splits)



lemma evolve_before_timestep:
  "\<exists>rk w1 ns bs sim8.
       RKIntegratorMHD C (cc_data_t sim) (dt sim) (temporal_method sim) (world sim) = (rk, w1)
     \<and> ns = nstages C rk (set_start C rk (cc_data sim, fcx_data sim, fcy_data sim) w1)
     \<and> length bs = ns
     \<and> calls sim8 = calls sim
            @ [Ev_RKIntegratorMHD (cc_data_t sim) (dt sim) (temporal_method sim) rk,
               Ev_set_start rk (cc_data sim) (fcx_data sim) (fcy_data sim)]
            @ concat (map2 (stage_calls rk (dt sim)) [0..<ns] bs)
            @ [Ev_compute_final_update rk]
            @ (case particles sim of None \<Rightarrow> [] | Some p \<Rightarrow> [Ev_update_particles p (dt sim)])
            @ [Ev_fill_BC_all (cc_data sim), Ev_fill_BC_all (fcx_data sim),
               Ev_fill_BC_all (fcy_data sim)]
     \<and> same_frame sim8 sim
     \<and> evolve C sim =
          (case method_compute_timestep C sim8 of
              (Some err, sim9) \<Rightarrow> (Some err, sim9)
            | (None, sim9) \<Rightarrow>
                (None, sim9\<lparr> cc_data_t := cc_data_t sim9 + dt sim9,
                             n_step := n_step sim9 + 1 \<rparr>))"
proof -
  obtain rk w1 where
    r: "RKIntegratorMHD C (cc_data_t sim) (dt sim) (temporal_method sim) (world sim) = (rk, w1)"
    by (cases "RKIntegratorMHD C (cc_data_t sim) (dt sim) (temporal_method sim) (world sim)")
  define sim1 where "sim1 = sim\<lparr> world := w1, calls := calls sim @
          [Ev_RKIntegratorMHD (cc_data_t sim) (dt sim) (temporal_method sim) rk] \<rparr>"
  define sim2 where "sim2 = call (Ev_set_start rk (cc_data sim) (fcx_data sim1) (fcy_data sim1))
      (set_start C rk (cc_data sim, fcx_data sim1, fcy_data sim1)) sim1"
  define ns where "ns = nstages C rk (world sim2)"
  define sim3 where "sim3 = fold (stage C rk) [0..<ns] sim2"
  from fold_stage_calls [of "[0..<ns]" C rk sim2] obtain bs where
    bs: "length bs = ns"
    "calls sim3 = calls sim2 @ concat (map2 (stage_calls rk (dt sim2)) [0..<ns] bs)"
    "same_frame sim3 sim2"
    unfolding sim3_def by auto
  have f2: "same_frame sim2 sim"
    "world sim2 = set_start C rk (cc_data sim, fcx_data sim, fcy_data sim) w1"
    "calls sim2 = calls sim
       @ [Ev_RKIntegratorMHD (cc_data_t sim) (dt sim) (temporal_method sim) rk,
          Ev_set_start rk (cc_data sim) (fcx_data sim) (fcy_data sim)]"
    by (simp_all add: sim2_def sim1_def same_frame_def)
  have f3: "same_frame sim3 sim" using bs(3) f2(1) by (simp add: same_frame_def)
  define sim8 where "sim8 =
     (let sim4 = call (Ev_compute_final_update rk) (compute_final_update C rk) sim3;
          sim5 = (case particles sim4 of
                      None \<Rightarrow> sim4
                    | Some p \<Rightarrow> call (Ev_update_particles p (dt sim4))
                                 (update_particles C p (dt sim4)) sim4);
          sim6 = call (Ev_fill_BC_all (cc_data sim5)) (fill_BC_all C (cc_data sim5)) sim5;
          sim7 = call (Ev_fill_BC_all (fcx_data sim6)) (fill_BC_all C (fcx_data sim6)) sim6
      in call (Ev_fill_BC_all (fcy_data sim7)) (fill_BC_all C (fcy_data sim7)) sim7)"
  have c8: "calls sim8 = calls sim3 @ [Ev_compute_final_update rk]
            @ (case particles sim of None \<Rightarrow> [] | Some p \<Rightarrow> [Ev_update_particles p (dt sim)])
            @ [Ev_fill_BC_all (cc_data sim), Ev_fill_BC_all (fcx_data sim),
               Ev_fill_BC_all (fcy_data sim)]"
    using f3 by (simp add: sim8_def Let_def same_frame_def split: option.splits)
  have f8: "same_frame sim8 sim"
    using f3 by (simp add: sim8_def Let_def same_frame_def split: option.splits)
  have ev: "evolve C sim =
      (case method_compute_timestep C sim8 of
              (Some err, sim9) \<Rightarrow> (Some err, sim9)
            | (None, sim9) \<Rightarrow>
                (None, sim9\<lparr> cc_data_t := cc_data_t sim9 + dt sim9,
                             n_step := n_step sim9 + 1 \<rparr>))"
    unfolding evolve_def Let_def r prod.case sim8_def sim3_def ns_def sim2_def sim1_def
    by (rule refl)
  have d2: "dt sim2 = dt sim" using f2(1) by (simp add: same_frame_def)
  have tot: "calls sim8 = calls sim
            @ [Ev_RKIntegratorMHD (cc_data_t sim) (dt sim) (temporal_method sim) rk,
               Ev_set_start rk (cc_data sim) (fcx_data sim) (fcy_data sim)]
            @ concat (map2 (stage_calls rk (dt sim)) [0..<ns] bs)
            @ [Ev_compute_final_update rk]
            @ (case particles sim of None \<Rightarrow> [] | Some p \<Rightarrow> [Ev_update_particles p (dt sim)])
            @ [Ev_fill_BC_all (cc_data sim), Ev_fill_BC_all (fcx_data sim),
               Ev_fill_BC_all (fcy_data sim)]"
    unfolding c8 bs(2) f2(3) d2 by simp
  have nsv: "ns = nstages C rk (set_start C rk (cc_data sim, fcx_data sim, fcy_data sim) w1)"
    unfolding ns_def f2(2) ..
  show ?thesis
    using r nsv bs(1) tot f8 ev by blast
qed

text \<open>
  What \<open>evolve\<close> does to the clock and the step counter when it returns normally: the
  clock advances by the timestep just recomputed for the next step.
\<close>

lemma evolve_clock:
  assumes "evolve C sim = (None, sim')"
  shows "cc_data_t sim' = cc_data_t sim + dt sim' \<and> n_step sim' = n_step sim + 1"
proof -
  from evolve_before_timestep [of C sim] obtain sim8 where
    f8: "same_frame sim8 sim"
    and ev: "evolve C sim =
          (case method_compute_timestep C sim8 of
              (Some err, sim9) \<Rightarrow> (Some err, sim9)
            | (None, sim9) \<Rightarrow>
                (None, sim9\<lparr> cc_data_t := cc_data_t sim9 + dt sim9,
                             n_step := n_step sim9 + 1 \<rparr>))"
    by blast
  obtain e sim9 where m: "method_compute_timestep C sim8 = (e, sim9)"
    by (cases "method_compute_timestep C sim8")
  from assms ev m have e: "e = None"
    and s: "sim' = sim9\<lparr> cc_data_t := cc_data_t sim9 + dt sim9, n_step := n_step sim9 + 1 \<rparr>"
    by (cases e; simp)+
  from method_compute_timestep_frame [OF m] f8 show ?thesis
    unfolding s by (simp add: same_frame_def)
qed


lemma example_evolve:
  "evolve example_collab example_sim =
     (None, example_sim\<lparr> world := 1, dt := 1 / 20, cc_data_t := 1 / 20, n_step := 1,
        calls :=
          [Ev_RKIntegratorMHD 0 (1 / 10) ''RK2'' 3, Ev_set_start 3 0 1 2,
           Ev_get_stage_start 3 0 0 1 2,
           Ev_fill_BC_all 0, Ev_fill_BC_all 1, Ev_fill_BC_all 2,
           Ev_timestep 0 1 2 (1 / 10) 100 101 102,
           Ev_store_increment 3 0 100 101 102,
           Ev_get_stage_start 3 1 10 11 12,
           Ev_fill_BC_all 10, Ev_fill_BC_all 11, Ev_fill_BC_all 12,
           Ev_timestep 10 11 12 (1 / 10) 110 111 112,
           Ev_store_increment 3 1 110 111 112,
           Ev_compute_final_update 3,
           Ev_fill_BC_all 0, Ev_fill_BC_all 1, Ev_fill_BC_all 2] \<rparr>)"
proof -
  have u: "[0..<2] = [0, Suc 0]" by (simp add: upt_rec)
  show ?thesis
    unfolding evolve_def example_collab_def example_sim_def
    by (simp add: u stage_def substep_def call_def Let_def method_compute_timestep_def
        scalar_div_def arr_add_def lift2_def emap_def amin_def elems_def arr2_of_def)
qed


text \<open>
  Claim C2 fails on the code.  In the example the step is taken with \<open>dt = 1/10\<close> (the
  integrator is created with it and both substeps are evaluated with it), the flow
  speeds up, and the timestep recomputed for the next step is \<open>1/20\<close>.  The clock, at
  \<open>0\<close> before the call, is at \<open>1/20\<close> after it, not at \<open>1/10\<close>: it was advanced by the
  recomputed timestep.  The step counter went up by one.
\<close>

theorem evolve_clock_advances_by_recomputed_dt:
  "fst (evolve example_collab example_sim) = None
   \<and> cc_data_t example_sim = 0 \<and> dt example_sim = 1 / 10
   \<and> Ev_RKIntegratorMHD 0 (1 / 10) ''RK2'' 3 \<in> set (calls (snd (evolve example_collab example_sim)))
   \<and> Ev_timestep 0 1 2 (1 / 10) 100 101 102
        \<in> set (calls (snd (evolve example_collab example_sim)))
   \<and> Ev_timestep 10 11 12 (1 / 10) 110 111 112
        \<in> set (calls (snd (evolve example_collab example_sim)))
   \<and> dt (snd (evolve example_collab example_sim)) = 1 / 20
   \<and> cc_data_t (snd (evolve example_collab example_sim)) = 1 / 20
   \<and> cc_data_t (snd (evolve example_collab example_sim))
        \<noteq> cc_data_t example_sim + dt example_sim
   \<and> n_step (snd (evolve example_collab example_sim)) = n_step example_sim + 1"
  unfolding example_evolve by (simp add: example_sim_def)

section \<open>What the conversions write\<close>

lemma run_Cons_None: "c s = (None, s') \<Longrightarrow> run (c # cs) s = run cs s'"
  by simp

lemma run_Cons_Some: "c s = (Some err, s') \<Longrightarrow> run (c # cs) s = (Some err, s')"
  by simp

lemma assign_other: "v \<noteq> w \<Longrightarrow> snd (assign w k e s) v = s v"
  by (simp add: assign_def split: sum.splits)

lemma bind_var_other: "v \<noteq> w \<Longrightarrow> snd (bind_var w r s) v = s v"
  by (simp add: bind_var_def split: sum.splits)

lemma bind_local_other:
  "(\<And>F s'. snd (body F s') v = s' v) \<Longrightarrow> snd (bind_local e body s) v = s v"
  by (simp add: bind_local_def split: sum.splits)

lemma run_other:
  "(\<And>c s'. c \<in> set cs \<Longrightarrow> snd (c s') v = s' v) \<Longrightarrow> snd (run cs s) v = s v"
proof (induction cs arbitrary: s)
  case Nil
  show ?case by simp
next
  case (Cons c cs)
  obtain r s1 where c: "c s = (r, s1)" by (cases "c s")
  have s1: "s1 v = s v" using Cons.prems [of c s] c by simp
  show ?case
  proof (cases r)
    case None
    have "snd (run cs s1) v = s1 v" by (rule Cons.IH) (simp add: Cons.prems)
    then show ?thesis using c None s1 by simp
  next
    case (Some err)
    then show ?thesis using c s1 by simp
  qed
qed

lemma if_then_other:
  "(\<And>s'. snd (c s') v = s' v) \<Longrightarrow> snd (if_then b c s) v = s v"
  by (simp add: if_then_def)

lemma for_each_other:
  "(\<And>x s'. snd (body x s') v = s' v) \<Longrightarrow> snd (for_each xs body s) v = s v"
  unfolding for_each_def by (rule run_other) auto

lemma snd_returning: "snd (returning res arg r) = snd r arg"
  by (cases r) (simp add: returning_def split: option.splits)

text \<open>
  Claim C10.  For every input, whether the call returns or raises, the caller's
  primitive array is after \<open>prim_to_cons\<close> what it was before: every write of the
  function goes to the conserved array it allocated.
\<close>

theorem prim_to_cons_leaves_q:
  "snd (prim_to_cons eq q gamma vars g) = q"
proof -
  have "snd (prim_to_cons eq q gamma vars g) = entry Var_q q Var_q"
    unfolding prim_to_cons_def snd_returning
    by (rule run_other)
       (auto intro!: assign_other bind_var_other bind_local_other if_then_other for_each_other)
  then show ?thesis by (simp add: entry_def)
qed

text \<open>
  Claim C8.  For every input, the caller's conserved array after \<open>cons_to_prim\<close> is
  the array before the call with each entry of the density slot \<open>idens\<close> replaced by
  its maximum with \<open>1e-10\<close>, and every other slot as it was.  This is so whether the
  call then returns or raises; only when the scratch allocation or the density index
  itself is rejected, before the write, is the array untouched.
\<close>

theorem cons_to_prim_clamps_U:
  "snd (cons_to_prim eq U gamma vars g) =
     (if 0 \<le> nq vars \<and> idx_ok (idens vars) (dim2 U)
      then U\<lparr> at3 := (\<lambda>i j k. if k = pyidx (idens vars) (dim2 U)
                                then max (at3 U i j k) smallrho
                                else at3 U i j k) \<rparr>
      else U)"
proof -
  let ?c1 = "bind_var Var_q (scratch_array g (nq vars))"
  let ?c2 = "assign Var_U (idens vars) (maximum smallrho (slice Var_U (idens vars)))"
  let ?s0 = "entry Var_U U"
  obtain rest where cp: "cons_to_prim eq U gamma vars g
       = returning Var_q Var_U (run (?c1 # ?c2 # rest) ?s0)"
    and rest: "\<And>c s'. c \<in> set rest \<Longrightarrow> snd (c s') Var_U = s' Var_U"
  proof -
    show ?thesis
      by (rule that [OF cons_to_prim_def [of eq U gamma vars g]])
         (auto intro!: assign_other bind_local_other if_then_other for_each_other)
  qed
  show ?thesis
  proof (cases "0 \<le> nq vars")
    case False
    then have "?c1 ?s0 = (Some ValueError, ?s0)"
      by (simp add: bind_var_def scratch_array_def)
    then have "run (?c1 # ?c2 # rest) ?s0 = (Some ValueError, ?s0)"
      by (rule run_Cons_Some)
    then show ?thesis using False
      unfolding cp snd_returning by (simp add: entry_def)
  next
    case True
    define s1 where "s1 = ?s0(Var_q := \<lparr> dim0 = qx g, dim1 = qy g, dim2 = nat (nq vars),
                                       at3 = (\<lambda>i j k. 0) \<rparr>)"
    have c1: "?c1 ?s0 = (None, s1)"
      using True by (simp add: bind_var_def scratch_array_def s1_def)
    have r1: "run (?c1 # ?c2 # rest) ?s0 = run (?c2 # rest) s1"
      using c1 by (rule run_Cons_None)
    have u1: "s1 Var_U = U" by (simp add: s1_def entry_def)
    show ?thesis
    proof (cases "idx_ok (idens vars) (dim2 U)")
      case False
      then have "?c2 s1 = (Some IndexError, s1)"
        by (simp add: assign_def maximum_def emap_def slice_def get_comp_def u1)
      then have "run (?c2 # rest) s1 = (Some IndexError, s1)"
        by (rule run_Cons_Some)
      then show ?thesis using False u1
        unfolding cp snd_returning r1 by simp
    next
      case ok: True
      let ?U1 = "U\<lparr> at3 := (\<lambda>i j k. if k = pyidx (idens vars) (dim2 U)
                                then max (at3 U i j k) smallrho
                                else at3 U i j k) \<rparr>"
      have c2: "?c2 s1 = (None, s1(Var_U := ?U1))"
        using ok by (simp add: assign_def maximum_def emap_def slice_def get_comp_def
            set_comp_def u1 fun_eq_iff)
      have "run (?c2 # rest) s1 = run rest (s1(Var_U := ?U1))"
        using c2 by (rule run_Cons_None)
      moreover have "snd (run rest (s1(Var_U := ?U1))) Var_U = (s1(Var_U := ?U1)) Var_U"
        by (rule run_other) (rule rest)
      ultimately show ?thesis using ok True
        unfolding cp snd_returning r1 by simp
    qed
  qed
qed

section \<open>The conversions, cell by cell\<close>

lemma list_index_take:
  assumes "list_index xs x = Inr i" "x \<in> set (take n xs)"
  shows "i < n"
proof -
  from assms(2) obtain j where j: "j < length (take n xs)" "take n xs ! j = x"
    unfolding in_set_conv_nth by blast
  from j(1) have jn: "j < n" and jl: "j < length xs" by simp_all
  from j(2) jn have xj: "xs ! j = x" by simp
  from list_index_Inr [OF assms(1)] have "\<forall>k<i. xs ! k \<noteq> x" by blast
  with xj have "\<not> j < i" by blast
  with jn show ?thesis by linarith
qed

lemma list_index_distinct:
  assumes "list_index xs x = Inr i" "list_index xs y = Inr j" "x \<noteq> y"
  shows "i \<noteq> j"
proof
  assume "i = j"
  moreover from list_index_Inr [OF assms(1)] have "xs ! i = x" by blast
  moreover from list_index_Inr [OF assms(2)] have "xs ! j = y" by blast
  ultimately show False using assms(3) by simp
qed

lemma Variables_standard_layout:
  assumes v: "Variables names = Inr m" and l: "leading_six names"
  shows "standard_layout m"
proof -
  obtain d where d: "list_index names ''density'' = Inr d"
    using v by (cases "list_index names ''density''") (simp_all add: Variables_def)
  obtain xm where xm: "list_index names ''x-momentum'' = Inr xm"
    using v d by (cases "list_index names ''x-momentum''") (simp_all add: Variables_def)
  obtain ym where ym: "list_index names ''y-momentum'' = Inr ym"
    using v d xm by (cases "list_index names ''y-momentum''") (simp_all add: Variables_def)
  obtain en where en: "list_index names ''energy'' = Inr en"
    using v d xm ym by (cases "list_index names ''energy''") (simp_all add: Variables_def)
  obtain bx where bx: "list_index names ''x-magnetic-field'' = Inr bx"
    using v d xm ym en
    by (cases "list_index names ''x-magnetic-field''") (simp_all add: Variables_def)
  obtain by' where by': "list_index names ''y-magnetic-field'' = Inr by'"
    using v d xm ym en bx
    by (cases "list_index names ''y-magnetic-field''") (simp_all add: Variables_def)
  have m: "m = \<lparr> nvar = int (length names),
                idens = int d, ixmom = int xm, iymom = int ym, iener = int en,
                ixmag = int bx, iymag = int by',
                naux = int (length names) - 6,
                irhox = (if int (length names) - 6 > 0 then 6 else - 1),
                nq = 6 + (int (length names) - 6),
                irho = 0, iu = 1, iv = 2, ip = 3, ibx = 4, iby = 5,
                ix = (if int (length names) - 6 > 0 then 6 else - 1) \<rparr>"
    using v unfolding Variables_def d xm ym en bx by' ebind_simps Let_def by simp
  have mem: "set mandatory \<subseteq> set (take 6 names)"
    using l by (simp add: leading_six_def)
  have "set (take 6 names) \<subseteq> set names" by (rule set_take_subset)
  with mem have "set mandatory \<subseteq> set names" by (rule subset_trans)
  then have len: "6 \<le> length names" by (rule mandatory_length_le)
  have in6: "x \<in> set (take 6 names)" if "x \<in> set mandatory" for x
    using mem that by blast
  have lt: "d < 6" "xm < 6" "ym < 6" "en < 6" "bx < 6" "by' < 6"
    by (rule list_index_take [OF d in6], simp add: mandatory_def,
        rule list_index_take [OF xm in6], simp add: mandatory_def,
        rule list_index_take [OF ym in6], simp add: mandatory_def,
        rule list_index_take [OF en in6], simp add: mandatory_def,
        rule list_index_take [OF bx in6], simp add: mandatory_def,
        rule list_index_take [OF by' in6], simp add: mandatory_def)
  have ne: "d \<noteq> xm" "d \<noteq> ym" "d \<noteq> en" "d \<noteq> bx" "d \<noteq> by'"
    "xm \<noteq> ym" "xm \<noteq> en" "xm \<noteq> bx" "xm \<noteq> by'"
    "ym \<noteq> en" "ym \<noteq> bx" "ym \<noteq> by'"
    "en \<noteq> bx" "en \<noteq> by'" "bx \<noteq> by'"
    by (rule list_index_distinct [OF d xm], simp, rule list_index_distinct [OF d ym], simp,
        rule list_index_distinct [OF d en], simp, rule list_index_distinct [OF d bx], simp,
        rule list_index_distinct [OF d by'], simp,
        rule list_index_distinct [OF xm ym], simp, rule list_index_distinct [OF xm en], simp,
        rule list_index_distinct [OF xm bx], simp, rule list_index_distinct [OF xm by'], simp,
        rule list_index_distinct [OF ym en], simp, rule list_index_distinct [OF ym bx], simp,
        rule list_index_distinct [OF ym by'], simp,
        rule list_index_distinct [OF en bx], simp, rule list_index_distinct [OF en by'], simp,
        rule list_index_distinct [OF bx by'], simp)
  show ?thesis
    unfolding standard_layout_def m using len lt ne by simp
qed

lemma smallrho_pos: "0 < smallrho" by (simp add: smallrho_def)
lemma smallp_pos: "0 < smallp" by (simp add: smallp_def)

lemma max_smallrho_pos [simp]: "0 < max x smallrho"
  using smallrho_pos by (simp add: max_def)

lemma max_smallrho_nz [simp]: "max x smallrho \<noteq> 0"
  using max_smallrho_pos [of x] by linarith















lemma bind_local_evals:
  assumes "evals e s r c f"
  shows "bind_local e body s = body \<lparr> rows = r, cols = c, at2 = f \<rparr> s"
  using assms by (simp add: evals_def bind_local_def)
















lemma Variables_names7: "Variables names7 = Inr vars7"
  by (simp add: Variables_def names7_def mandatory_def vars7_def)

lemma leading_six_names7: "leading_six names7"
  by (simp add: leading_six_def names7_def mandatory_def)

lemma standard_layout_vars7: "standard_layout vars7"
  by (rule Variables_standard_layout [OF Variables_names7 leading_six_names7])



end
